theory Spec2Isabelle
  imports Complex_Main
begin

section \<open>Data model (types.ts)\<close>

text \<open>
  JavaScript numbers are IEEE doubles. A finite double is a real number, so coordinates,
  sizes and zoom are of type \<open>real\<close>, and comparing, copying, \<open>Math.max\<close> and \<open>Math.min\<close> are
  those of the reals. Addition, subtraction, multiplication and division round their result
  to a double, and a decimal literal denotes the nearest double: these operations are not
  those of the reals, and the model takes them as a parameter \<open>num\<close> of every function that
  computes with them. Nothing is assumed of them. Numbers that the code uses as array
  indices or counts (\<open>pageIndex\<close>, \<open>index\<close>, \<open>numPages\<close>) are of type \<open>int\<close>.
\<close>

record JSNumberOps =
  js_add :: "real \<Rightarrow> real \<Rightarrow> real"
  js_sub :: "real \<Rightarrow> real \<Rightarrow> real"
  js_mul :: "real \<Rightarrow> real \<Rightarrow> real"
  js_div :: "real \<Rightarrow> real \<Rightarrow> real"
  js_lit :: "real \<Rightarrow> real"

text \<open>The arithmetic without rounding, for evaluating samples.\<close>

definition exact_ops :: JSNumberOps where
  "exact_ops = \<lparr>js_add = (\<lambda>a b. a + b), js_sub = (\<lambda>a b. a - b), js_mul = (\<lambda>a b. a * b),
     js_div = (\<lambda>a b. a / b), js_lit = (\<lambda>a. a)\<rparr>"

text \<open>
  Fields of the two interfaces
  \<open>TextBox\<close> and \<open>PageState\<close> that share a name in the source (\<open>width\<close>, \<open>height\<close>) and
  fields whose name is a HOL constant or a keyword (\<open>id\<close>, \<open>text\<close>, \<open>x\<close>, \<open>y\<close>) carry the prefix
  \<open>box_\<close> or \<open>page_\<close>. An optional field (\<open>f?: T\<close>) is a \<open>T option\<close>.
\<close>

datatype TextBoxMode = Overlay | Replace

datatype FontFamily = Helvetica | Times_Roman | Courier | Inter

datatype FontWeight = Normal | Bold

datatype TextAlign = AlignLeft | AlignCenter | AlignRight

record TextBox =
  box_id :: string
  pageIndex :: int
  box_x :: real
  box_y :: real
  box_width :: real
  box_height :: real
  box_text :: string
  fontFamily :: FontFamily
  fontSize :: real
  color :: string
  fontWeight :: "FontWeight option"
  textAlign :: "TextAlign option"
  backgroundColor :: "string option"
  mode :: TextBoxMode

record PageState =
  page_index :: int
  page_width :: real
  page_height :: real
  textBoxes :: "TextBox list"

record SelectionState =
  selectedBoxId :: "string option"
  isEditing :: bool

text \<open>A snapshot for undo/redo: interface \<open>HistoryState\<close>, whose only field is \<open>pages\<close>.\<close>

datatype HistoryState = HistoryState (snapshot_pages: "PageState list")

record UndoRedoState =
  past :: "HistoryState list"
  future :: "HistoryState list"
  canUndo :: bool
  canRedo :: bool

record DocumentState =
  fileName :: "string option"
  pdfData :: "nat list option"
  numPages :: int
  pages :: "PageState list"
  zoom :: real
  panOffset :: "real \<times> real"
  selection :: SelectionState
  history :: UndoRedoState
  isLoaded :: bool

text \<open>
  \<open>Partial<TextBox>\<close>: every field may be absent (\<open>None\<close>) or supplied (\<open>Some v\<close>). For the
  three optional fields of \<open>TextBox\<close> a supplied value may itself be \<open>undefined\<close>.
\<close>

record TextBoxUpdates =
  upd_id :: "string option"
  upd_pageIndex :: "int option"
  upd_x :: "real option"
  upd_y :: "real option"
  upd_width :: "real option"
  upd_height :: "real option"
  upd_text :: "string option"
  upd_fontFamily :: "FontFamily option"
  upd_fontSize :: "real option"
  upd_color :: "string option"
  upd_fontWeight :: "FontWeight option option"
  upd_textAlign :: "TextAlign option option"
  upd_backgroundColor :: "string option option"
  upd_mode :: "TextBoxMode option"

definition no_updates :: TextBoxUpdates where
  "no_updates = \<lparr>upd_id = None, upd_pageIndex = None, upd_x = None, upd_y = None,
     upd_width = None, upd_height = None, upd_text = None, upd_fontFamily = None,
     upd_fontSize = None, upd_color = None, upd_fontWeight = None, upd_textAlign = None,
     upd_backgroundColor = None, upd_mode = None\<rparr>"

section \<open>The document store (useDocumentStore)\<close>

definition no_selection :: SelectionState where
  "no_selection = \<lparr>selectedBoxId = None, isEditing = False\<rparr>"

definition empty_history :: UndoRedoState where
  "empty_history = \<lparr>past = [], future = [], canUndo = False, canRedo = False\<rparr>"

definition initialState :: DocumentState where
  "initialState = \<lparr>fileName = None, pdfData = None, numPages = 0, pages = [], zoom = 1,
     panOffset = (0, 0), selection = no_selection, history = empty_history,
     isLoaded = False\<rparr>"

text \<open>\<open>loadPDF\<close> sets every field of the state from its arguments and from constants.\<close>

definition loadPDF :: "string \<Rightarrow> nat list \<Rightarrow> int \<Rightarrow> PageState list \<Rightarrow> DocumentState \<Rightarrow> DocumentState" where
  "loadPDF fileName' pdfData' numPages' pages' s =
     s\<lparr>fileName := Some fileName', pdfData := Some pdfData', numPages := numPages',
       pages := pages', isLoaded := True, zoom := 1, panOffset := (0, 0),
       selection := \<lparr>selectedBoxId = None, isEditing = False\<rparr>,
       history := \<lparr>past = [], future = [], canUndo = False, canRedo = False\<rparr>\<rparr>"

definition setZoom :: "real \<Rightarrow> DocumentState \<Rightarrow> DocumentState" where
  "setZoom z s = s\<lparr>zoom := max 0.25 (min 4 z)\<rparr>"

text \<open>
  \<open>addTextBox\<close>: the page at \<open>pageIndex\<close> gets the box appended when the index is in range;
  otherwise \<open>set\<close> is not called.
\<close>

definition addTextBox :: "TextBox \<Rightarrow> DocumentState \<Rightarrow> DocumentState" where
  "addTextBox textBox s =
     (let ps = pages s; i = pageIndex textBox in
      if i \<ge> 0 \<and> i < int (length ps)
      then s\<lparr>pages := ps[nat i := (ps ! nat i)\<lparr>textBoxes := textBoxes (ps ! nat i) @ [textBox]\<rparr>]\<rparr>
      else s)"

text \<open>The object spread \<open>{ ...box, ...updates }\<close>: a supplied field replaces the box's.\<close>

definition merge_updates :: "TextBox \<Rightarrow> TextBoxUpdates \<Rightarrow> TextBox" where
  "merge_updates box u =
     \<lparr>box_id = (case upd_id u of None \<Rightarrow> box_id box | Some v \<Rightarrow> v),
      pageIndex = (case upd_pageIndex u of None \<Rightarrow> pageIndex box | Some v \<Rightarrow> v),
      box_x = (case upd_x u of None \<Rightarrow> box_x box | Some v \<Rightarrow> v),
      box_y = (case upd_y u of None \<Rightarrow> box_y box | Some v \<Rightarrow> v),
      box_width = (case upd_width u of None \<Rightarrow> box_width box | Some v \<Rightarrow> v),
      box_height = (case upd_height u of None \<Rightarrow> box_height box | Some v \<Rightarrow> v),
      box_text = (case upd_text u of None \<Rightarrow> box_text box | Some v \<Rightarrow> v),
      fontFamily = (case upd_fontFamily u of None \<Rightarrow> fontFamily box | Some v \<Rightarrow> v),
      fontSize = (case upd_fontSize u of None \<Rightarrow> fontSize box | Some v \<Rightarrow> v),
      color = (case upd_color u of None \<Rightarrow> color box | Some v \<Rightarrow> v),
      fontWeight = (case upd_fontWeight u of None \<Rightarrow> fontWeight box | Some v \<Rightarrow> v),
      textAlign = (case upd_textAlign u of None \<Rightarrow> textAlign box | Some v \<Rightarrow> v),
      backgroundColor =
        (case upd_backgroundColor u of None \<Rightarrow> backgroundColor box | Some v \<Rightarrow> v),
      mode = (case upd_mode u of None \<Rightarrow> mode box | Some v \<Rightarrow> v)\<rparr>"

definition updateTextBox :: "string \<Rightarrow> TextBoxUpdates \<Rightarrow> DocumentState \<Rightarrow> DocumentState" where
  "updateTextBox ident updates s =
     s\<lparr>pages := map (\<lambda>page. page\<lparr>textBoxes :=
          map (\<lambda>box. if box_id box = ident then merge_updates box updates else box)
            (textBoxes page)\<rparr>) (pages s)\<rparr>"

definition deleteTextBox :: "string \<Rightarrow> DocumentState \<Rightarrow> DocumentState" where
  "deleteTextBox ident s =
     s\<lparr>pages := map (\<lambda>page. page\<lparr>textBoxes :=
          filter (\<lambda>box. box_id box \<noteq> ident) (textBoxes page)\<rparr>) (pages s),
       selection := \<lparr>selectedBoxId = None, isEditing = False\<rparr>\<rparr>"

definition selectTextBox :: "string option \<Rightarrow> DocumentState \<Rightarrow> DocumentState" where
  "selectTextBox ident s = s\<lparr>selection := \<lparr>selectedBoxId = ident, isEditing = False\<rparr>\<rparr>"

text \<open>A string is truthy in JavaScript when it is neither \<open>null\<close>/\<open>undefined\<close> nor empty.\<close>

definition truthy :: "string option \<Rightarrow> bool" where
  "truthy v = (case v of None \<Rightarrow> False | Some str \<Rightarrow> str \<noteq> [])"

definition enterEditMode :: "DocumentState \<Rightarrow> DocumentState" where
  "enterEditMode s =
     (if truthy (selectedBoxId (selection s))
      then s\<lparr>selection := (selection s)\<lparr>isEditing := True\<rparr>\<rparr>
      else s)"

definition exitEditMode :: "DocumentState \<Rightarrow> DocumentState" where
  "exitEditMode s = s\<lparr>selection := (selection s)\<lparr>isEditing := False\<rparr>\<rparr>"

definition saveHistory :: "DocumentState \<Rightarrow> DocumentState" where
  "saveHistory s =
     s\<lparr>history := \<lparr>past = past (history s) @ [HistoryState (pages s)], future = [],
          canUndo = True, canRedo = False\<rparr>\<rparr>"

definition undo :: "DocumentState \<Rightarrow> DocumentState" where
  "undo s =
     (if length (past (history s)) = 0 then s
      else
        let previous = last (past (history s));
            newPast = butlast (past (history s));
            currentState = HistoryState (pages s)
        in s\<lparr>pages := snapshot_pages previous,
             history := \<lparr>past = newPast, future = currentState # future (history s),
               canUndo = (length newPast > 0), canRedo = True\<rparr>,
             selection := \<lparr>selectedBoxId = None, isEditing = False\<rparr>\<rparr>)"

definition redo :: "DocumentState \<Rightarrow> DocumentState" where
  "redo s =
     (if length (future (history s)) = 0 then s
      else
        let next = hd (future (history s));
            newFuture = tl (future (history s));
            currentState = HistoryState (pages s)
        in s\<lparr>pages := snapshot_pages next,
             history := \<lparr>past = past (history s) @ [currentState], future = newFuture,
               canUndo = True, canRedo = (length newFuture > 0)\<rparr>,
             selection := \<lparr>selectedBoxId = None, isEditing = False\<rparr>\<rparr>)"

definition getTextBoxesForPage :: "int \<Rightarrow> DocumentState \<Rightarrow> TextBox list" where
  "getTextBoxesForPage i s =
     (if i \<ge> 0 \<and> i < int (length (pages s)) then textBoxes (pages s ! nat i) else [])"

subsection \<open>Sequences of snapshotted mutations\<close>

text \<open>
  The three mutating operations of the store, and a run of them in which every mutation is
  immediately preceded by exactly one \<open>saveHistory\<close> call, as the editing components do
  (\<open>saveHistory(); addTextBox(...)\<close>, \<open>saveHistory(); updateTextBox(...)\<close>,
  \<open>saveHistory(); deleteTextBox(...)\<close>).
\<close>

datatype Mutation =
    AddTextBox TextBox
  | UpdateTextBox string TextBoxUpdates
  | DeleteTextBox string

fun apply_mutation :: "Mutation \<Rightarrow> DocumentState \<Rightarrow> DocumentState" where
  "apply_mutation (AddTextBox b) s = addTextBox b s"
| "apply_mutation (UpdateTextBox i u) s = updateTextBox i u s"
| "apply_mutation (DeleteTextBox i) s = deleteTextBox i s"

fun run_mutations :: "Mutation list \<Rightarrow> DocumentState \<Rightarrow> DocumentState" where
  "run_mutations [] s = s"
| "run_mutations (m # ms) s = run_mutations ms (apply_mutation m (saveHistory s))"

fun pages_trace :: "Mutation list \<Rightarrow> DocumentState \<Rightarrow> PageState list list" where
  "pages_trace [] s = []"
| "pages_trace (m # ms) s = pages s # pages_trace ms (apply_mutation m (saveHistory s))"

section \<open>The editor store (useEditorStore)\<close>

datatype Tool = SelectTool | TextTool

record EditorPreferences =
  activeTool :: Tool
  defaultFontFamily :: FontFamily
  defaultFontSize :: real
  defaultColor :: string
  showGrid :: bool
  enableSnapping :: bool

definition initialPreferences :: EditorPreferences where
  "initialPreferences = \<lparr>activeTool = SelectTool, defaultFontFamily = Helvetica,
     defaultFontSize = 12, defaultColor = ''#000000'', showGrid = False,
     enableSnapping = True\<rparr>"

definition setActiveTool :: "Tool \<Rightarrow> EditorPreferences \<Rightarrow> EditorPreferences" where
  "setActiveTool tool p = p\<lparr>activeTool := tool\<rparr>"

definition setDefaultFontSize :: "real \<Rightarrow> EditorPreferences \<Rightarrow> EditorPreferences" where
  "setDefaultFontSize fs p = p\<lparr>defaultFontSize := max 1 (min 200 fs)\<rparr>"

section \<open>The editing components (Toolbar, PDFPage)\<close>

text \<open>
  The components read and write both stores; an application state is the pair of them.
  \<open>selectedBox\<close> is the Toolbar's lookup of the selected box: the first box, in page order,
  whose id is the selected id, when the selected id is truthy.
\<close>

definition selectedBox :: "DocumentState \<Rightarrow> TextBox option" where
  "selectedBox s =
     (if truthy (selectedBoxId (selection s))
      then find (\<lambda>box. Some (box_id box) = selectedBoxId (selection s))
             (concat (map textBoxes (pages s)))
      else None)"

definition updateFontSize ::
  "real \<Rightarrow> DocumentState \<times> EditorPreferences \<Rightarrow> DocumentState \<times> EditorPreferences" where
  "updateFontSize fs app =
     (case app of (s, p) \<Rightarrow>
        (case selectedBox s of
           Some b \<Rightarrow>
             (updateTextBox (box_id b) (no_updates\<lparr>upd_fontSize := Some fs\<rparr>) (saveHistory s),
              setDefaultFontSize fs p)
         | None \<Rightarrow> (s, setDefaultFontSize fs p)))"

text \<open>\<open>screenToPDF\<close> divides by the zoom, which the store keeps in \<open>[0.25, 4]\<close>.\<close>

definition screenToPDF ::
  "JSNumberOps \<Rightarrow> real \<Rightarrow> real \<Rightarrow> real \<Rightarrow> real \<times> real \<Rightarrow> real \<times> real" where
  "screenToPDF num screenX screenY z containerOffset =
     (js_div num (js_sub num screenX (fst containerOffset)) z,
      js_div num (js_sub num screenY (snd containerOffset)) z)"

text \<open>
  \<open>handlePageClick\<close> of the page component with index \<open>pageIdx\<close>: the click position relative
  to the page container and the freshly generated id are parameters.
\<close>

definition handlePageClick ::
  "JSNumberOps \<Rightarrow> string \<Rightarrow> int \<Rightarrow> real \<Rightarrow> real \<Rightarrow> DocumentState \<times> EditorPreferences
     \<Rightarrow> DocumentState \<times> EditorPreferences" where
  "handlePageClick num newId pageIdx clickX clickY app =
     (case app of (s, p) \<Rightarrow>
        if activeTool p \<noteq> TextTool \<or> \<not> (0 \<le> pageIdx \<and> pageIdx < int (length (pages s)))
        then (s, p)
        else
          let xy = screenToPDF num clickX clickY (zoom s) (0, 0);
              newTextBox = \<lparr>box_id = newId, pageIndex = pageIdx, box_x = max 0 (fst xy),
                box_y = max 0 (snd xy), box_width = 200, box_height = 50,
                box_text = ''New Text'', fontFamily = defaultFontFamily p,
                fontSize = defaultFontSize p, color = defaultColor p,
                fontWeight = Some Normal, textAlign = Some AlignLeft,
                backgroundColor = None, mode = Overlay\<rparr>
          in (enterEditMode (selectTextBox (Some newId) (addTextBox newTextBox (saveHistory s))),
              p))"

text \<open>
  \<open>String.prototype.replace\<close> with a string pattern replaces the first occurrence of the
  pattern only (the replacement used by the code contains no \<open>$\<close> pattern).
\<close>

fun replace_first :: "string \<Rightarrow> string \<Rightarrow> string \<Rightarrow> string" where
  "replace_first pat rep [] = (if pat = [] then rep else [])"
| "replace_first pat rep (c # cs) =
     (if take (length pat) (c # cs) = pat then rep @ drop (length pat) (c # cs)
      else c # replace_first pat rep cs)"

text \<open>The name \<open>handleExport\<close> gives to the downloaded file.\<close>

definition exportFileName :: "string option \<Rightarrow> string" where
  "exportFileName fileName' =
     (if truthy fileName' then replace_first ''.pdf'' ''_edited.pdf'' (the fileName')
      else ''edited.pdf'')"

section \<open>The export engine (pdfExporter)\<close>

datatype StandardFonts = StdHelvetica | StdTimesRoman | StdCourier

fun getFontForFamily :: "FontFamily \<Rightarrow> StandardFonts" where
  "getFontForFamily Helvetica = StdHelvetica"
| "getFontForFamily Times_Roman = StdTimesRoman"
| "getFontForFamily Courier = StdCourier"
| "getFontForFamily Inter = StdHelvetica"

type_synonym rgb = "real \<times> real \<times> real"

definition is_hex_digit :: "char \<Rightarrow> bool" where
  "is_hex_digit c = (c \<in> set ''0123456789abcdefABCDEF'')"

definition hex_digit_value :: "char \<Rightarrow> nat" where
  "hex_digit_value c =
     (let n = (of_char c :: nat) in
      if 48 \<le> n \<and> n \<le> 57 then n - 48
      else if 97 \<le> n \<and> n \<le> 102 then n - 87
      else n - 55)"

text \<open>\<open>parseInt(str, 16)\<close> on a string of hexadecimal digits.\<close>

definition parseInt16 :: "string \<Rightarrow> nat" where
  "parseInt16 str = foldl (\<lambda>acc c. 16 * acc + hex_digit_value c) 0 str"

text \<open>
  \<open>hexToRgb\<close>: the regular expression accepts an optional \<open>#\<close> followed by exactly six
  hexadecimal digits (either case) and nothing else; any other string gives black. Each
  channel is the parsed byte divided by 255.
\<close>

definition hexToRgb :: "JSNumberOps \<Rightarrow> string \<Rightarrow> rgb" where
  "hexToRgb num hex =
     (let body = (case hex of [] \<Rightarrow> [] | c # cs \<Rightarrow> if c = CHR ''#'' then cs else hex) in
      if length body = 6 \<and> list_all is_hex_digit body
      then (js_div num (real (parseInt16 (take 2 body))) 255,
            js_div num (real (parseInt16 (take 2 (drop 2 body)))) 255,
            js_div num (real (parseInt16 (take 2 (drop 4 body)))) 255)
      else (0, 0, 0))"

text \<open>
  The colour parsing as the specification words it: a hex string \<open>#RRGGBB\<close>, with or without
  the leading \<open>#\<close>, gives its three channel values (two hexadecimal digits each, read from a
  table of the digits) normalised by 255; a malformed string gives black.
\<close>

definition spec_hex_digit :: "char \<Rightarrow> nat option" where
  "spec_hex_digit c =
     map_of [(CHR ''0'', 0), (CHR ''1'', 1), (CHR ''2'', 2), (CHR ''3'', 3), (CHR ''4'', 4),
       (CHR ''5'', 5), (CHR ''6'', 6), (CHR ''7'', 7), (CHR ''8'', 8), (CHR ''9'', 9),
       (CHR ''a'', 10), (CHR ''b'', 11), (CHR ''c'', 12), (CHR ''d'', 13), (CHR ''e'', 14),
       (CHR ''f'', 15), (CHR ''A'', 10), (CHR ''B'', 11), (CHR ''C'', 12), (CHR ''D'', 13),
       (CHR ''E'', 14), (CHR ''F'', 15)] c"

definition spec_channel :: "JSNumberOps \<Rightarrow> char \<Rightarrow> char \<Rightarrow> real option" where
  "spec_channel num hi lo =
     (case spec_hex_digit hi of
        None \<Rightarrow> None
      | Some h \<Rightarrow>
          (case spec_hex_digit lo of
             None \<Rightarrow> None
           | Some l \<Rightarrow> Some (js_div num (real (16 * h + l)) 255)))"

fun spec_color_body :: "JSNumberOps \<Rightarrow> string \<Rightarrow> rgb" where
  "spec_color_body num [r1, r2, g1, g2, b1, b2] =
     (case spec_channel num r1 r2 of
        None \<Rightarrow> (0, 0, 0)
      | Some r \<Rightarrow>
          (case spec_channel num g1 g2 of
             None \<Rightarrow> (0, 0, 0)
           | Some g \<Rightarrow>
               (case spec_channel num b1 b2 of
                  None \<Rightarrow> (0, 0, 0)
                | Some b \<Rightarrow> (r, g, b))))"
| "spec_color_body num str = (0, 0, 0)"

fun spec_color :: "JSNumberOps \<Rightarrow> string \<Rightarrow> rgb" where
  "spec_color num [] = (0, 0, 0)"
| "spec_color num (c # cs) =
     (if c = CHR ''#'' then spec_color_body num cs else spec_color_body num (c # cs))"

text \<open>\<open>text.split(' ')\<close>: the pieces between single spaces; never an empty array.\<close>

fun split_space :: "string \<Rightarrow> string list" where
  "split_space [] = [[]]"
| "split_space (c # cs) =
     (if c = CHR '' '' then [] # split_space cs
      else (case split_space cs of [] \<Rightarrow> [[c]] | w # ws \<Rightarrow> (c # w) # ws))"

text \<open>
  \<open>wrapText\<close>. The font is its width measurement \<open>widthOfTextAtSize\<close>, a parameter of the
  model. The loop state is the pair of the lines pushed so far and the current line; an empty
  current line is falsy.
\<close>

definition wrap_step ::
  "real \<Rightarrow> (string \<Rightarrow> real \<Rightarrow> real) \<Rightarrow> real \<Rightarrow> string list \<times> string \<Rightarrow> string
     \<Rightarrow> string list \<times> string" where
  "wrap_step maxWidth font fontSize' st word =
     (case st of (lines, currentLine) \<Rightarrow>
        let testLine = (if currentLine \<noteq> [] then currentLine @ '' '' @ word else word);
            w = font testLine fontSize'
        in if w > maxWidth \<and> currentLine \<noteq> [] then (lines @ [currentLine], word)
           else (lines, testLine))"

definition wrap_finish :: "string list \<times> string \<Rightarrow> string list" where
  "wrap_finish st =
     (case st of (lines, currentLine) \<Rightarrow>
        if currentLine \<noteq> [] then lines @ [currentLine] else lines)"

definition wrapText ::
  "string \<Rightarrow> real \<Rightarrow> (string \<Rightarrow> real \<Rightarrow> real) \<Rightarrow> real \<Rightarrow> string list" where
  "wrapText text' maxWidth font fontSize' =
     wrap_finish (foldl (wrap_step maxWidth font fontSize') ([], []) (split_space text'))"

text \<open>
  The greedy word wrap as the specification words it, written as a direct recursion over the
  remaining words: the next word joins the current line while the line, a space and the word
  together measure at most \<open>maxWidth\<close>; otherwise the current line is flushed and a new line
  starts with the word. A line that has not been started (it is empty) takes the word as it
  is, and is not emitted.
\<close>

fun greedy_lines ::
  "real \<Rightarrow> (string \<Rightarrow> real \<Rightarrow> real) \<Rightarrow> real \<Rightarrow> string \<Rightarrow> string list \<Rightarrow> string list" where
  "greedy_lines maxWidth font fontSize' cur [] = (if cur = [] then [] else [cur])"
| "greedy_lines maxWidth font fontSize' cur (w # ws) =
     (if cur = [] then greedy_lines maxWidth font fontSize' w ws
      else if font (cur @ '' '' @ w) fontSize' \<le> maxWidth
        then greedy_lines maxWidth font fontSize' (cur @ '' '' @ w) ws
      else cur # greedy_lines maxWidth font fontSize' w ws)"

definition greedy_wrap ::
  "string \<Rightarrow> real \<Rightarrow> (string \<Rightarrow> real \<Rightarrow> real) \<Rightarrow> real \<Rightarrow> string list" where
  "greedy_wrap text' maxWidth font fontSize' =
     greedy_lines maxWidth font fontSize' [] (split_space text')"

definition no_space :: "string \<Rightarrow> bool" where
  "no_space w = (CHR '' '' \<notin> set w)"

text \<open>The non-empty words of a list of lines, in order.\<close>

definition line_words :: "string list \<Rightarrow> string list" where
  "line_words ls = filter (\<lambda>v. v \<noteq> []) (concat (map split_space ls))"

text \<open>A line fits the width, or it is a single word.\<close>

definition line_ok :: "real \<Rightarrow> (string \<Rightarrow> real \<Rightarrow> real) \<Rightarrow> real \<Rightarrow> string \<Rightarrow> bool" where
  "line_ok maxWidth font fontSize' l = (font l fontSize' \<le> maxWidth \<or> no_space l)"

text \<open>
  A width measurement that never shrinks when text is added before or after, as the sum of
  glyph advances of a font does.
\<close>

definition monotone_width :: "(string \<Rightarrow> real \<Rightarrow> real) \<Rightarrow> real \<Rightarrow> bool" where
  "monotone_width font fontSize' =
     (\<forall>a b c. font b fontSize' \<le> font (a @ b @ c) fontSize')"

text \<open>
  A width measurement that shrinks: the word \<open>bb\<close> alone measures 150, every other text 10.
\<close>

definition odd_font :: "string \<Rightarrow> real \<Rightarrow> real" where
  "odd_font str fontSize' = (if str = ''bb'' then 150 else 10)"

text \<open>A sample width measurement: 10 units for every character but the space, 5 for a space.\<close>

definition sample_font :: "string \<Rightarrow> real \<Rightarrow> real" where
  "sample_font str fontSize' =
     real (10 * length (filter (\<lambda>c. c \<noteq> CHR '' '') str)
           + 5 * length (filter (\<lambda>c. c = CHR '' '') str))"

text \<open>
  The drawing operations \<open>drawTextBox\<close> issues on the page, in the order it issues them:
  \<open>page.drawRectangle\<close> with x, y, width, height and colour, and \<open>page.drawText\<close> with the
  line, x, y, size, font and colour.
\<close>

datatype DrawOp =
    DrawRectangle real real real real rgb
  | DrawText string real real real StandardFonts rgb

fun is_rectangle :: "DrawOp \<Rightarrow> bool" where
  "is_rectangle (DrawRectangle x y w h c) = True"
| "is_rectangle (DrawText l x y sz f c) = False"

text \<open>
  The loop over the wrapped lines: it stops at the first line whose baseline \<open>currentY\<close> lies
  below \<open>pdfY\<close>, and after each drawn line subtracts the line height from the baseline
  (\<open>currentY -= lineHeight\<close>).
\<close>

fun drawLines ::
  "JSNumberOps \<Rightarrow> (StandardFonts \<Rightarrow> string \<Rightarrow> real \<Rightarrow> real) \<Rightarrow> TextBox \<Rightarrow> StandardFonts
     \<Rightarrow> rgb \<Rightarrow> real \<Rightarrow> real \<Rightarrow> real \<Rightarrow> string list \<Rightarrow> DrawOp list" where
  "drawLines num widthOf textBox font textColor lineHeight pdfY currentY [] = []"
| "drawLines num widthOf textBox font textColor lineHeight pdfY currentY (line # rest) =
     (if currentY < pdfY then []
      else
        let x = (if textAlign textBox = Some AlignCenter
                 then js_add num (box_x textBox)
                        (js_div num
                           (js_sub num (box_width textBox)
                              (widthOf font line (fontSize textBox))) 2)
                 else if textAlign textBox = Some AlignRight
                 then js_sub num
                        (js_sub num (js_add num (box_x textBox) (box_width textBox))
                           (widthOf font line (fontSize textBox))) 2
                 else js_add num (box_x textBox) 2)
        in DrawText line x currentY (fontSize textBox) font textColor
           # drawLines num widthOf textBox font textColor lineHeight pdfY
               (js_sub num currentY lineHeight) rest)"

definition drawTextBox ::
  "JSNumberOps \<Rightarrow> (StandardFonts \<Rightarrow> string \<Rightarrow> real \<Rightarrow> real) \<Rightarrow> TextBox \<Rightarrow> real
     \<Rightarrow> DrawOp list" where
  "drawTextBox num widthOf textBox pageHeight =
     (let font = getFontForFamily (fontFamily textBox);
          pdfY = js_sub num (js_sub num pageHeight (box_y textBox)) (box_height textBox);
          rect = (if mode textBox = Replace
                  then [DrawRectangle (box_x textBox) pdfY (box_width textBox)
                          (box_height textBox)
                          (hexToRgb num (if truthy (backgroundColor textBox)
                                         then the (backgroundColor textBox) else ''#FFFFFF''))]
                  else []);
          lines = wrapText (box_text textBox) (js_sub num (box_width textBox) 4)
                    (widthOf font) (fontSize textBox);
          textColor = hexToRgb num (color textBox);
          lineHeight = js_mul num (fontSize textBox) (js_lit num 1.2);
          currentY = js_sub num (js_sub num (js_add num pdfY (box_height textBox))
                       (fontSize textBox)) 2
      in rect @ drawLines num widthOf textBox font textColor lineHeight pdfY currentY lines)"

section \<open>Auxiliary notions and sample data\<close>

text \<open>Some box on some page carries the id.\<close>

definition has_box :: "string \<Rightarrow> DocumentState \<Rightarrow> bool" where
  "has_box ident s = (\<exists>page \<in> set (pages s). \<exists>box \<in> set (textBoxes page). box_id box = ident)"

text \<open>
  A box and the same box after \<open>updateTextBox\<close>: a field that the update does not supply has
  kept its value.
\<close>

definition unsupplied_kept :: "TextBoxUpdates \<Rightarrow> TextBox \<Rightarrow> TextBox \<Rightarrow> bool" where
  "unsupplied_kept u b b' =
     ((upd_id u = None \<longrightarrow> box_id b' = box_id b) \<and>
      (upd_pageIndex u = None \<longrightarrow> pageIndex b' = pageIndex b) \<and>
      (upd_x u = None \<longrightarrow> box_x b' = box_x b) \<and>
      (upd_y u = None \<longrightarrow> box_y b' = box_y b) \<and>
      (upd_width u = None \<longrightarrow> box_width b' = box_width b) \<and>
      (upd_height u = None \<longrightarrow> box_height b' = box_height b) \<and>
      (upd_text u = None \<longrightarrow> box_text b' = box_text b) \<and>
      (upd_fontFamily u = None \<longrightarrow> fontFamily b' = fontFamily b) \<and>
      (upd_fontSize u = None \<longrightarrow> fontSize b' = fontSize b) \<and>
      (upd_color u = None \<longrightarrow> color b' = color b) \<and>
      (upd_fontWeight u = None \<longrightarrow> fontWeight b' = fontWeight b) \<and>
      (upd_textAlign u = None \<longrightarrow> textAlign b' = textAlign b) \<and>
      (upd_backgroundColor u = None \<longrightarrow> backgroundColor b' = backgroundColor b) \<and>
      (upd_mode u = None \<longrightarrow> mode b' = mode b))"

text \<open>
  The file name the specification describes: the original name without its trailing
  \<open>.pdf\<close>, followed by \<open>_edited.pdf\<close>; \<open>edited.pdf\<close> when there is no original name.
\<close>

definition described_export_name :: "string option \<Rightarrow> string" where
  "described_export_name fileName' =
     (if truthy fileName'
      then (let n = the fileName' in
            (if length n \<ge> 4 \<and> drop (length n - 4) n = ''.pdf''
             then take (length n - 4) n else n) @ ''_edited.pdf'')
      else ''edited.pdf'')"









definition sample_box :: "string \<Rightarrow> TextBox" where
  "sample_box ident = \<lparr>box_id = ident, pageIndex = 0, box_x = 72, box_y = 72,
     box_width = 200, box_height = 50, box_text = ''Hello World'', fontFamily = Helvetica,
     fontSize = 12, color = ''#000000'', fontWeight = Some Normal,
     textAlign = Some AlignLeft, backgroundColor = None, mode = Overlay\<rparr>"

text \<open>
  A loaded two-page document (612 by 792 points each) with the boxes \<open>a\<close> and \<open>b\<close> on page 0,
  \<open>b\<close> selected and being edited.
\<close>

definition sample_state :: DocumentState where
  "sample_state = \<lparr>fileName = Some ''doc.pdf'', pdfData = Some [37, 80, 68, 70],
     numPages = 2,
     pages = [\<lparr>page_index = 0, page_width = 612, page_height = 792,
                textBoxes = [sample_box ''a'', sample_box ''b'']\<rparr>,
              \<lparr>page_index = 1, page_width = 612, page_height = 792, textBoxes = []\<rparr>],
     zoom = 1, panOffset = (0, 0),
     selection = \<lparr>selectedBoxId = Some ''b'', isEditing = True\<rparr>,
     history = \<lparr>past = [], future = [], canUndo = False, canRedo = False\<rparr>,
     isLoaded = True\<rparr>"


section \<open>Undo and redo\<close>

lemma apply_mutation_history: "history (apply_mutation m s) = history s"
  by (cases m) (simp_all add: addTextBox_def updateTextBox_def deleteTextBox_def Let_def)

lemma length_pages_trace: "length (pages_trace ms s) = length ms"
  by (induction ms arbitrary: s) simp_all

lemma run_mutations_past:
  "past (history (run_mutations ms s)) = past (history s) @ map HistoryState (pages_trace ms s)"
  by (induction ms arbitrary: s) (simp_all add: apply_mutation_history saveHistory_def)

lemma hd_pages_trace: "hd (pages_trace ms s @ [pages (run_mutations ms s)]) = pages s"
  by (cases ms) simp_all

lemma undo_snoc:
  assumes "past (history t) = H @ [HistoryState q]"
  shows "pages (undo t) = q" and "past (history (undo t)) = H"
    and "future (history (undo t)) = HistoryState (pages t) # future (history t)"
  using assms by (simp_all add: undo_def Let_def)

lemma undo_many:
  "past (history t) = H @ map HistoryState Ps \<Longrightarrow>
   pages ((undo ^^ length Ps) t) = hd (Ps @ [pages t]) \<and>
   past (history ((undo ^^ length Ps) t)) = H \<and>
   future (history ((undo ^^ length Ps) t)) =
     map HistoryState (tl (Ps @ [pages t])) @ future (history t)"
proof (induction Ps arbitrary: t rule: rev_induct)
  case Nil
  then show ?case by simp
next
  case (snoc q Qs)
  from snoc.prems have p: "past (history t) = (H @ map HistoryState Qs) @ [HistoryState q]"
    by simp
  note u = undo_snoc [OF p]
  have ih: "pages ((undo ^^ length Qs) (undo t)) = hd (Qs @ [pages (undo t)]) \<and>
   past (history ((undo ^^ length Qs) (undo t))) = H \<and>
   future (history ((undo ^^ length Qs) (undo t))) =
     map HistoryState (tl (Qs @ [pages (undo t)])) @ future (history (undo t))"
    using snoc.IH [of "undo t"] u(2) by simp
  have step: "(undo ^^ length (Qs @ [q])) t = (undo ^^ length Qs) (undo t)"
    by (simp add: funpow_swap1)
  show ?case unfolding step using ih u(1) u(3)
    by (cases Qs) simp_all
qed

lemma redo_cons:
  assumes "future (history t) = HistoryState q # G"
  shows "pages (redo t) = q" and "future (history (redo t)) = G"
  using assms by (simp_all add: redo_def Let_def)

lemma redo_many:
  "future (history t) = map HistoryState Fs @ G \<Longrightarrow>
   pages ((redo ^^ length Fs) t) = last (pages t # Fs)"
proof (induction Fs arbitrary: t)
  case Nil
  then show ?case by simp
next
  case (Cons q Qs)
  from Cons.prems have f: "future (history t) = HistoryState q # (map HistoryState Qs @ G)"
    by simp
  note r = redo_cons [OF f]
  have "(redo ^^ length (q # Qs)) t = (redo ^^ length Qs) (redo t)"
    by (simp add: funpow_swap1)
  then show ?case using Cons.IH [of "redo t"] r by simp
qed

text \<open>
  Claim C1 (undo/redo inverse law). From any document state \<open>s\<close> (its pages are \<open>P0\<close>), run
  any sequence \<open>ms\<close> of \<open>n\<close> mutations (\<open>addTextBox\<close>, \<open>updateTextBox\<close>, \<open>deleteTextBox\<close>), each
  immediately preceded by exactly one \<open>saveHistory\<close> call. Then \<open>n\<close> calls of \<open>undo\<close> bring the
  pages back to \<open>P0\<close>, and \<open>n\<close> calls of \<open>redo\<close> after that bring them to the pages reached
  after the last mutation.
\<close>

theorem undo_redo_inverse:
  "pages ((undo ^^ length ms) (run_mutations ms s)) = pages s \<and>
   pages ((redo ^^ length ms) ((undo ^^ length ms) (run_mutations ms s))) =
     pages (run_mutations ms s)"
proof -
  let ?r = "run_mutations ms s"
  let ?Ps = "pages_trace ms s"
  let ?n = "length ms"
  have len: "length ?Ps = ?n" by (rule length_pages_trace)
  have "past (history ?r) = past (history s) @ map HistoryState ?Ps"
    by (rule run_mutations_past)
  from undo_many [OF this] have
    u1: "pages ((undo ^^ ?n) ?r) = hd (?Ps @ [pages ?r])" and
    u3: "future (history ((undo ^^ ?n) ?r)) =
           map HistoryState (tl (?Ps @ [pages ?r])) @ future (history ?r)"
    by (simp_all add: len)
  have first: "pages ((undo ^^ ?n) ?r) = pages s"
    using u1 by (simp add: hd_pages_trace)
  have len2: "length (tl (?Ps @ [pages ?r])) = ?n" by (simp add: len)
  have "pages ((redo ^^ length (tl (?Ps @ [pages ?r]))) ((undo ^^ ?n) ?r)) =
       last (pages ((undo ^^ ?n) ?r) # tl (?Ps @ [pages ?r]))"
    by (rule redo_many [OF u3])
  then have "pages ((redo ^^ ?n) ((undo ^^ ?n) ?r)) =
       last (pages ((undo ^^ ?n) ?r) # tl (?Ps @ [pages ?r]))"
    by (simp only: len2)
  also have "\<dots> = last (hd (?Ps @ [pages ?r]) # tl (?Ps @ [pages ?r]))"
    by (simp only: u1)
  also have "\<dots> = last (?Ps @ [pages ?r])" by simp
  also have "\<dots> = pages ?r" by simp
  finally show ?thesis using first by simp
qed

section \<open>Loading\<close>

text \<open>
  Claim C2 as stated (a mismatched call does not install the document) fails: \<open>loadPDF\<close> does
  not compare the length of the pages array with the page count, and a call with no pages
  and a page count of 2 installs the document as loaded.
\<close>

theorem loadPDF_mismatch_counterexample:
  "int (length ([] :: PageState list)) \<noteq> 2 \<and>
   isLoaded (loadPDF ''a.pdf'' [37, 80, 68, 70] 2 [] initialState) \<and>
   numPages (loadPDF ''a.pdf'' [37, 80, 68, 70] 2 [] initialState) = 2 \<and>
   pages (loadPDF ''a.pdf'' [37, 80, 68, 70] 2 [] initialState) = []"
  by (simp add: loadPDF_def)

text \<open>
  Claim C2, as amended. \<open>loadPDF\<close> never fails and makes no check of the pages array's length
  against the page count: for every call, matched or not, the resulting state is the
  supplied file name, bytes, page count and pages, marked as loaded, with zoom 1.0, pan at
  the origin, no selection and an empty history. No field of the previous state survives.
\<close>

theorem loadPDF_replaces_state:
  "loadPDF fileName' pdfData' numPages' pages' s =
     \<lparr>fileName = Some fileName', pdfData = Some pdfData', numPages = numPages',
      pages = pages', zoom = 1, panOffset = (0, 0),
      selection = \<lparr>selectedBoxId = None, isEditing = False\<rparr>,
      history = \<lparr>past = [], future = [], canUndo = False, canRedo = False\<rparr>,
      isLoaded = True\<rparr>"
  by (simp add: loadPDF_def)

section \<open>Deleting, updating and adding boxes\<close>

text \<open>
  Claim C3 as stated (the selection is cleared only when the deleted box was the selected
  one, and an unknown id leaves the whole state unchanged) fails: \<open>deleteTextBox\<close> clears the
  selection unconditionally. Deleting box \<open>a\<close> while box \<open>b\<close> is selected (and remains on the
  page) loses the selection, and deleting an id that no box has changes the state, because
  the selection is cleared.
\<close>

theorem deleteTextBox_selection_counterexample:
  "selectedBoxId (selection sample_state) = Some ''b'' \<and>
   has_box ''b'' (deleteTextBox ''a'' sample_state) \<and>
   selectedBoxId (selection (deleteTextBox ''a'' sample_state)) = None \<and>
   \<not> has_box ''zzz'' sample_state \<and>
   deleteTextBox ''zzz'' sample_state \<noteq> sample_state"
  by (simp add: deleteTextBox_def sample_state_def sample_box_def has_box_def)

lemma page_textBoxes_same: "page\<lparr>textBoxes := textBoxes page\<rparr> = (page :: PageState)"
  by simp

lemma filter_other_ids:
  "\<not> has_box ident s \<Longrightarrow> page \<in> set (pages s) \<Longrightarrow>
   filter (\<lambda>box. box_id box \<noteq> ident) (textBoxes page) = textBoxes page"
  by (auto simp: has_box_def filter_id_conv)

lemma map_other_ids:
  "\<not> has_box ident s \<Longrightarrow> page \<in> set (pages s) \<Longrightarrow>
   map (\<lambda>box. if box_id box = ident then f box else box) (textBoxes page) = textBoxes page"
  by (rule map_idI) (auto simp: has_box_def)

lemma delete_absent_pages:
  assumes "\<not> has_box ident s"
  shows "map (\<lambda>page. page\<lparr>textBoxes := filter (\<lambda>box. box_id box \<noteq> ident) (textBoxes page)\<rparr>)
           (pages s) = pages s"
  by (rule map_idI) (simp add: filter_other_ids [OF assms])

lemma update_absent_pages:
  assumes "\<not> has_box ident s"
  shows "map (\<lambda>page. page\<lparr>textBoxes :=
            map (\<lambda>box. if box_id box = ident then f box else box) (textBoxes page)\<rparr>)
           (pages s) = pages s"
  by (rule map_idI) (simp add: map_other_ids [OF assms])

text \<open>
  Claim C3, as amended. For every document state and id, \<open>deleteTextBox\<close> keeps the number
  of pages and every page's index, width and height, removes from every page exactly the
  boxes with that id (the other boxes stay, in order), so that no box with the id remains,
  and always clears the selection, whether or not the deleted box was the selected one.
  When no box has the id, every field but the selection is unchanged, and the selection is
  still cleared.
\<close>

theorem deleteTextBox_always_clears:
  "length (pages (deleteTextBox ident s)) = length (pages s) \<and>
   (\<forall>k < length (pages s).
      textBoxes (pages (deleteTextBox ident s) ! k) =
        filter (\<lambda>box. box_id box \<noteq> ident) (textBoxes (pages s ! k)) \<and>
      page_index (pages (deleteTextBox ident s) ! k) = page_index (pages s ! k) \<and>
      page_width (pages (deleteTextBox ident s) ! k) = page_width (pages s ! k) \<and>
      page_height (pages (deleteTextBox ident s) ! k) = page_height (pages s ! k)) \<and>
   \<not> has_box ident (deleteTextBox ident s) \<and>
   selection (deleteTextBox ident s) = \<lparr>selectedBoxId = None, isEditing = False\<rparr> \<and>
   (\<not> has_box ident s \<longrightarrow>
      deleteTextBox ident s = s\<lparr>selection := \<lparr>selectedBoxId = None, isEditing = False\<rparr>\<rparr>)"
proof -
  have absent: "\<not> has_box ident s \<Longrightarrow>
      deleteTextBox ident s = s\<lparr>selection := \<lparr>selectedBoxId = None, isEditing = False\<rparr>\<rparr>"
    by (simp add: deleteTextBox_def delete_absent_pages)
  have gone: "\<not> has_box ident (deleteTextBox ident s)"
    by (auto simp: has_box_def deleteTextBox_def)
  show ?thesis using absent gone by (simp add: deleteTextBox_def)
qed

theorem deleteTextBox_always_clears_witness:
  "\<not> has_box ''zzz'' sample_state \<and>
   deleteTextBox ''zzz'' sample_state =
     sample_state\<lparr>selection := \<lparr>selectedBoxId = None, isEditing = False\<rparr>\<rparr> \<and>
   (0::nat) < length (pages sample_state) \<and>
   textBoxes (pages (deleteTextBox ''a'' sample_state) ! 0) = [sample_box ''b''] \<and>
   selection (deleteTextBox ''a'' sample_state) = \<lparr>selectedBoxId = None, isEditing = False\<rparr>"
proof -
  have h: "\<not> has_box ''zzz'' sample_state"
    by (simp add: has_box_def sample_state_def sample_box_def)
  have l: "(0::nat) < length (pages sample_state)" by (simp add: sample_state_def)
  have f: "filter (\<lambda>box. box_id box \<noteq> ''a'') (textBoxes (pages sample_state ! 0)) = [sample_box ''b'']"
    by (simp add: sample_state_def sample_box_def)
  from deleteTextBox_always_clears [of "''zzz''" sample_state] h
  have 1: "deleteTextBox ''zzz'' sample_state =
     sample_state\<lparr>selection := \<lparr>selectedBoxId = None, isEditing = False\<rparr>\<rparr>" by blast
  from deleteTextBox_always_clears [of "''a''" sample_state] l
  have 2: "textBoxes (pages (deleteTextBox ''a'' sample_state) ! 0) =
        filter (\<lambda>box. box_id box \<noteq> ''a'') (textBoxes (pages sample_state ! 0))"
    and 3: "selection (deleteTextBox ''a'' sample_state) = \<lparr>selectedBoxId = None, isEditing = False\<rparr>"
    by blast+
  show ?thesis using h 1 l 2 3 f by simp
qed

text \<open>
  Claim C8 (invalid reference no-ops). \<open>updateTextBox\<close> with an id that no box has leaves the
  pages equal to their previous value, and \<open>addTextBox\<close> with a box whose \<open>pageIndex\<close> is
  negative or at least the number of pages leaves the pages unchanged.
\<close>

theorem invalid_reference_noop:
  "(\<not> has_box ident s \<longrightarrow> pages (updateTextBox ident updates s) = pages s) \<and>
   (pageIndex textBox < 0 \<or> pageIndex textBox \<ge> int (length (pages s)) \<longrightarrow>
      pages (addTextBox textBox s) = pages s)"
  by (auto simp: updateTextBox_def update_absent_pages addTextBox_def Let_def)

theorem invalid_reference_noop_witness:
  "\<not> has_box ''nonexistent'' sample_state \<and>
   pages (updateTextBox ''nonexistent'' (no_updates\<lparr>upd_text := Some ''x''\<rparr>) sample_state)
     = pages sample_state \<and>
   pageIndex ((sample_box ''c'')\<lparr>pageIndex := 2\<rparr>) \<ge> int (length (pages sample_state)) \<and>
   pages (addTextBox ((sample_box ''c'')\<lparr>pageIndex := 2\<rparr>) sample_state) = pages sample_state \<and>
   pageIndex ((sample_box ''c'')\<lparr>pageIndex := - 1\<rparr>) < 0 \<and>
   pages (addTextBox ((sample_box ''c'')\<lparr>pageIndex := - 1\<rparr>) sample_state) = pages sample_state"
proof -
  have h: "\<not> has_box ''nonexistent'' sample_state"
    by (simp add: has_box_def sample_state_def sample_box_def)
  have a: "pageIndex ((sample_box ''c'')\<lparr>pageIndex := 2\<rparr>) \<ge> int (length (pages sample_state))"
    by (simp add: sample_state_def)
  have b: "pageIndex ((sample_box ''c'')\<lparr>pageIndex := - 1\<rparr>) < 0" by simp
  show ?thesis
    using h a b
      invalid_reference_noop [of "''nonexistent''" sample_state
        "no_updates\<lparr>upd_text := Some ''x''\<rparr>" "(sample_box ''c'')\<lparr>pageIndex := 2\<rparr>"]
      invalid_reference_noop [of "''nonexistent''" sample_state
        "no_updates\<lparr>upd_text := Some ''x''\<rparr>" "(sample_box ''c'')\<lparr>pageIndex := - 1\<rparr>"]
    by blast
qed

text \<open>
  Claim C10 (frame of \<open>updateTextBox\<close>). For every state, id and partial update, the zoom,
  pan offset, selection, history, file name, bytes, loaded flag and page count are
  untouched (so the selection is never cleared); the number of pages, every page's index,
  width, height and number of boxes are unchanged; box positions are kept; a box whose id
  differs from the given id is unchanged; and in every box each field that the update does
  not supply keeps its value.
\<close>

theorem updateTextBox_frame:
  "zoom (updateTextBox ident updates s) = zoom s \<and>
   panOffset (updateTextBox ident updates s) = panOffset s \<and>
   selection (updateTextBox ident updates s) = selection s \<and>
   history (updateTextBox ident updates s) = history s \<and>
   fileName (updateTextBox ident updates s) = fileName s \<and>
   pdfData (updateTextBox ident updates s) = pdfData s \<and>
   isLoaded (updateTextBox ident updates s) = isLoaded s \<and>
   numPages (updateTextBox ident updates s) = numPages s \<and>
   length (pages (updateTextBox ident updates s)) = length (pages s) \<and>
   (\<forall>k < length (pages s).
      page_index (pages (updateTextBox ident updates s) ! k) = page_index (pages s ! k) \<and>
      page_width (pages (updateTextBox ident updates s) ! k) = page_width (pages s ! k) \<and>
      page_height (pages (updateTextBox ident updates s) ! k) = page_height (pages s ! k) \<and>
      length (textBoxes (pages (updateTextBox ident updates s) ! k)) =
        length (textBoxes (pages s ! k)) \<and>
      (\<forall>j < length (textBoxes (pages s ! k)).
         (box_id (textBoxes (pages s ! k) ! j) \<noteq> ident \<longrightarrow>
            textBoxes (pages (updateTextBox ident updates s) ! k) ! j =
              textBoxes (pages s ! k) ! j) \<and>
         unsupplied_kept updates (textBoxes (pages s ! k) ! j)
           (textBoxes (pages (updateTextBox ident updates s) ! k) ! j)))"
  by (simp add: updateTextBox_def unsupplied_kept_def merge_updates_def)

theorem updateTextBox_frame_witness:
  "(0::nat) < length (pages sample_state) \<and>
   (1::nat) < length (textBoxes (pages sample_state ! 0)) \<and>
   box_id (textBoxes (pages sample_state ! 0) ! 1) \<noteq> ''a'' \<and>
   selection (updateTextBox ''a'' (no_updates\<lparr>upd_fontSize := Some 20\<rparr>) sample_state) =
     \<lparr>selectedBoxId = Some ''b'', isEditing = True\<rparr> \<and>
   textBoxes (pages (updateTextBox ''a'' (no_updates\<lparr>upd_fontSize := Some 20\<rparr>) sample_state) ! 0) ! 1
     = sample_box ''b'' \<and>
   unsupplied_kept (no_updates\<lparr>upd_fontSize := Some 20\<rparr>) (sample_box ''a'')
     (textBoxes (pages (updateTextBox ''a'' (no_updates\<lparr>upd_fontSize := Some 20\<rparr>) sample_state) ! 0) ! 0)"
proof -
  let ?u = "no_updates\<lparr>upd_fontSize := Some 20\<rparr>"
  have k: "(0::nat) < length (pages sample_state)" by (simp add: sample_state_def)
  have j: "(1::nat) < length (textBoxes (pages sample_state ! 0))"
    by (simp add: sample_state_def)
  have j0: "(0::nat) < length (textBoxes (pages sample_state ! 0))"
    by (simp add: sample_state_def)
  have other: "box_id (textBoxes (pages sample_state ! 0) ! 1) \<noteq> ''a''"
    by (simp add: sample_state_def sample_box_def)
  have b: "textBoxes (pages sample_state ! 0) ! 1 = sample_box ''b''"
    and a: "textBoxes (pages sample_state ! 0) ! 0 = sample_box ''a''"
    and sel: "selection sample_state = \<lparr>selectedBoxId = Some ''b'', isEditing = True\<rparr>"
    by (simp_all add: sample_state_def)
  note fr = updateTextBox_frame [of "''a''" ?u sample_state]
  from fr have 1: "selection (updateTextBox ''a'' ?u sample_state) = selection sample_state"
    by blast
  from fr k j other
  have 2: "textBoxes (pages (updateTextBox ''a'' ?u sample_state) ! 0) ! 1 =
             textBoxes (pages sample_state ! 0) ! 1"
    by blast
  from fr k j0
  have 3: "unsupplied_kept ?u (textBoxes (pages sample_state ! 0) ! 0)
             (textBoxes (pages (updateTextBox ''a'' ?u sample_state) ! 0) ! 0)"
    by blast
  show ?thesis using k j other 1 2 3 by (simp only: a b sel simp_thms)
qed

section \<open>Font size\<close>

text \<open>The default font size of the editor store is clamped to \<open>[1, 200]\<close> by its setter.\<close>

lemma setDefaultFontSize_range:
  "1 \<le> defaultFontSize (setDefaultFontSize fs p) \<and> defaultFontSize (setDefaultFontSize fs p) \<le> 200"
  by (simp add: setDefaultFontSize_def)

text \<open>
  Claim C5 (every stored font size lies in \<open>[1, 200]\<close>) does not hold of the code: the
  Toolbar's \<open>updateFontSize\<close> passes its numeric input to \<open>updateTextBox\<close> as it is, and only
  the default preference is clamped. With box \<open>b\<close> selected, the input 500 stores the font
  size 500 on the box (the default becomes 200), and the input 0 stores 0 (the default
  becomes 1).
\<close>

theorem updateFontSize_stores_unclamped:
  "selectedBox sample_state = Some (sample_box ''b'') \<and>
   map fontSize (textBoxes (pages (fst (updateFontSize 500 (sample_state, initialPreferences))) ! 0))
     = [12, 500] \<and>
   defaultFontSize (snd (updateFontSize 500 (sample_state, initialPreferences))) = 200 \<and>
   map fontSize (textBoxes (pages (fst (updateFontSize 0 (sample_state, initialPreferences))) ! 0))
     = [12, 0] \<and>
   defaultFontSize (snd (updateFontSize 0 (sample_state, initialPreferences))) = 1"
  by (simp add: updateFontSize_def selectedBox_def truthy_def sample_state_def sample_box_def
      updateTextBox_def saveHistory_def merge_updates_def no_updates_def
      setDefaultFontSize_def initialPreferences_def)

section \<open>Export file name\<close>

text \<open>
  Claim C4 (the exported name is the original name without its trailing \<open>.pdf\<close>, followed by
  \<open>_edited.pdf\<close>, for every original name) does not hold of the code: \<open>handleExport\<close>
  replaces the first occurrence of \<open>.pdf\<close>, wherever it is. For \<open>notes.pdf.old.pdf\<close> the code
  gives \<open>notes_edited.pdf.old.pdf\<close>, not \<open>notes.pdf.old_edited.pdf\<close>; for \<open>Report.PDF\<close> it
  gives the original name back.
\<close>

theorem exportFileName_replaces_first_occurrence:
  "exportFileName (Some ''notes.pdf.old.pdf'') = ''notes_edited.pdf.old.pdf'' \<and>
   described_export_name (Some ''notes.pdf.old.pdf'') = ''notes.pdf.old_edited.pdf'' \<and>
   exportFileName (Some ''Report.PDF'') = ''Report.PDF'' \<and>
   described_export_name (Some ''Report.PDF'') = ''Report.PDF_edited.pdf''"
  by (simp add: exportFileName_def described_export_name_def truthy_def)

text \<open>For a name with a single dot, the one before a final \<open>pdf\<close>, code and description agree.\<close>

lemma replace_first_no_dot:
  "CHR ''.'' \<notin> set base \<Longrightarrow>
   replace_first ''.pdf'' ''_edited.pdf'' (base @ ''.pdf'') = base @ ''_edited.pdf''"
  by (induction base) auto

lemma exportFileName_plain:
  "CHR ''.'' \<notin> set base \<Longrightarrow>
   exportFileName (Some (base @ ''.pdf'')) = described_export_name (Some (base @ ''.pdf''))"
  by (simp add: exportFileName_def described_export_name_def truthy_def replace_first_no_dot)

section \<open>Drawing a text box\<close>

text \<open>The loop over the lines issues text draws only.\<close>

lemma drawLines_no_rectangle:
  "list_all (\<lambda>opn. \<not> is_rectangle opn)
     (drawLines num widthOf textBox font textColor lineHeight pdfY currentY lines)"
  by (induction lines arbitrary: currentY) (simp_all add: Let_def)







text \<open>
  \<open>hexToRgb\<close> parses colours as the specification describes: it agrees with the table-driven
  parsing on every string.
\<close>

lemma spec_hex_digit_hex: "is_hex_digit c \<Longrightarrow> spec_hex_digit c = Some (hex_digit_value c)"
  by (auto simp: is_hex_digit_def spec_hex_digit_def hex_digit_value_def)

lemma spec_hex_digit_other: "\<not> is_hex_digit c \<Longrightarrow> spec_hex_digit c = None"
  by (simp add: is_hex_digit_def spec_hex_digit_def)

lemma spec_channel_hex:
  "is_hex_digit hi \<Longrightarrow> is_hex_digit lo \<Longrightarrow>
   spec_channel num hi lo = Some (js_div num (real (parseInt16 [hi, lo])) 255)"
  by (simp add: spec_channel_def spec_hex_digit_hex parseInt16_def)

lemma spec_channel_other:
  "\<not> is_hex_digit hi \<or> \<not> is_hex_digit lo \<Longrightarrow> spec_channel num hi lo = None"
  by (cases "is_hex_digit hi")
    (auto simp: spec_channel_def spec_hex_digit_hex spec_hex_digit_other)

lemma spec_color_body_six:
  "spec_color_body num [r1, r2, g1, g2, b1, b2] =
     (if list_all is_hex_digit [r1, r2, g1, g2, b1, b2]
      then (js_div num (real (parseInt16 [r1, r2])) 255,
            js_div num (real (parseInt16 [g1, g2])) 255,
            js_div num (real (parseInt16 [b1, b2])) 255)
      else (0, 0, 0))"
proof (cases "is_hex_digit r1 \<and> is_hex_digit r2")
  case r: True
  show ?thesis
  proof (cases "is_hex_digit g1 \<and> is_hex_digit g2")
    case g: True
    show ?thesis
    proof (cases "is_hex_digit b1 \<and> is_hex_digit b2")
      case True
      with r g show ?thesis by (simp add: spec_channel_hex)
    next
      case False
      then have "spec_channel num b1 b2 = None" by (simp add: spec_channel_other)
      with r g False show ?thesis by (auto simp: spec_channel_hex)
    qed
  next
    case False
    then have "spec_channel num g1 g2 = None" by (simp add: spec_channel_other)
    with r False show ?thesis by (auto simp: spec_channel_hex)
  qed
next
  case False
  then have "spec_channel num r1 r2 = None" by (simp add: spec_channel_other)
  with False show ?thesis by auto
qed

lemma spec_color_body_other: "length body \<noteq> 6 \<Longrightarrow> spec_color_body num body = (0, 0, 0)"
  by (cases "(num, body)" rule: spec_color_body.cases) simp_all

lemma length_six: "length body = 6 \<Longrightarrow> \<exists>a b c d e f. body = [a, b, c, d, e, f]"
  by (simp add: eval_nat_numeral length_Suc_conv) blast

lemma hexToRgb_body:
  "(if length body = 6 \<and> list_all is_hex_digit body
    then (js_div num (real (parseInt16 (take 2 body))) 255,
          js_div num (real (parseInt16 (take 2 (drop 2 body)))) 255,
          js_div num (real (parseInt16 (take 2 (drop 4 body)))) 255)
    else (0, 0, 0)) = spec_color_body num body"
proof (cases "length body = 6")
  case True
  then obtain a b c d e f where body: "body = [a, b, c, d, e, f]"
    using length_six by blast
  show ?thesis unfolding body spec_color_body_six by simp
next
  case False
  then show ?thesis by (simp add: spec_color_body_other)
qed

lemma hexToRgb_spec_color: "hexToRgb num hex = spec_color num hex"
proof (cases hex)
  case Nil
  then show ?thesis by (simp add: hexToRgb_def)
next
  case (Cons c cs)
  show ?thesis
  proof (cases "c = CHR ''#''")
    case True
    have "hexToRgb num (c # cs) =
        (if length cs = 6 \<and> list_all is_hex_digit cs
         then (js_div num (real (parseInt16 (take 2 cs))) 255,
               js_div num (real (parseInt16 (take 2 (drop 2 cs)))) 255,
               js_div num (real (parseInt16 (take 2 (drop 4 cs)))) 255)
         else (0, 0, 0))"
      by (simp only: hexToRgb_def Let_def list.case True if_True simp_thms)
    also have "\<dots> = spec_color_body num cs" by (rule hexToRgb_body)
    also have "\<dots> = spec_color num (c # cs)" using True by simp
    finally show ?thesis unfolding Cons .
  next
    case False
    have "hexToRgb num (c # cs) =
        (if length (c # cs) = 6 \<and> list_all is_hex_digit (c # cs)
         then (js_div num (real (parseInt16 (take 2 (c # cs)))) 255,
               js_div num (real (parseInt16 (take 2 (drop 2 (c # cs))))) 255,
               js_div num (real (parseInt16 (take 2 (drop 4 (c # cs))))) 255)
         else (0, 0, 0))"
      by (simp only: hexToRgb_def Let_def list.case False if_False simp_thms)
    also have "\<dots> = spec_color_body num (c # cs)" by (rule hexToRgb_body)
    also have "\<dots> = spec_color num (c # cs)" using False by simp
    finally show ?thesis unfolding Cons .
  qed
qed

lemma spec_color_white:
  "spec_color num ''#FFFFFF'' = (js_div num 255 255, js_div num 255 255, js_div num 255 255)"
  by (simp add: spec_channel_def spec_hex_digit_def)


text \<open>
  Claim C7 (replace-mode draw order). For every box in replace mode, the first operation of
  \<open>drawTextBox\<close> is a filled rectangle at the box's converted bounds
  (\<open>x\<close>, \<open>pageHeight - y - height\<close>, \<open>width\<close>, \<open>height\<close>), in the colour that the box's background
  colour string denotes (its three channel bytes over 255, black for a malformed string), or
  in the colour of \<open>#FFFFFF\<close>, pure white with all three channels 255 over 255, when the
  background colour is absent (an empty string counts as absent); all operations after it
  are text draws, so the rectangle precedes every text draw of the box. For every box in
  overlay mode no rectangle is drawn.
\<close>

theorem drawTextBox_replace_rectangle_first:
  "(mode textBox = Replace \<longrightarrow>
      (\<exists>rest. drawTextBox num widthOf textBox pageHeight =
          DrawRectangle (box_x textBox)
            (js_sub num (js_sub num pageHeight (box_y textBox)) (box_height textBox))
            (box_width textBox) (box_height textBox)
            (spec_color num
               (case backgroundColor textBox of
                  None \<Rightarrow> ''#FFFFFF''
                | Some c \<Rightarrow> if c = [] then ''#FFFFFF'' else c))
          # rest \<and>
        list_all (\<lambda>opn. \<not> is_rectangle opn) rest)) \<and>
   (mode textBox = Overlay \<longrightarrow>
      list_all (\<lambda>opn. \<not> is_rectangle opn) (drawTextBox num widthOf textBox pageHeight)) \<and>
   spec_color num ''#FFFFFF'' = (js_div num 255 255, js_div num 255 255, js_div num 255 255)"
proof -
  have col: "(if truthy (backgroundColor textBox)
              then the (backgroundColor textBox) else ''#FFFFFF'')
             = (case backgroundColor textBox of
                  None \<Rightarrow> ''#FFFFFF''
                | Some c \<Rightarrow> if c = [] then ''#FFFFFF'' else c)"
    by (simp add: truthy_def split: option.splits)
  show ?thesis
    unfolding drawTextBox_def Let_def col hexToRgb_spec_color
    using drawLines_no_rectangle spec_color_white by simp
qed

theorem drawTextBox_replace_rectangle_first_witness:
  "mode ((sample_box ''r'')\<lparr>mode := Replace\<rparr>) = Replace \<and>
   hd (drawTextBox exact_ops (\<lambda>f. sample_font) ((sample_box ''r'')\<lparr>mode := Replace\<rparr>) 792)
     = DrawRectangle 72 670 200 50 (1, 1, 1) \<and>
   list_all (\<lambda>opn. \<not> is_rectangle opn)
     (tl (drawTextBox exact_ops (\<lambda>f. sample_font) ((sample_box ''r'')\<lparr>mode := Replace\<rparr>) 792)) \<and>
   hd (drawTextBox exact_ops (\<lambda>f. sample_font)
         ((sample_box ''r'')\<lparr>mode := Replace, backgroundColor := Some ''#FF0000''\<rparr>) 792)
     = DrawRectangle 72 670 200 50 (1, 0, 0) \<and>
   hd (drawTextBox exact_ops (\<lambda>f. sample_font)
         ((sample_box ''r'')\<lparr>mode := Replace, backgroundColor := Some ''3b82f6''\<rparr>) 792)
     = DrawRectangle 72 670 200 50 (59 / 255, 130 / 255, 246 / 255) \<and>
   hd (drawTextBox exact_ops (\<lambda>f. sample_font)
         ((sample_box ''r'')\<lparr>mode := Replace, backgroundColor := Some ''not-a-color''\<rparr>) 792)
     = DrawRectangle 72 670 200 50 (0, 0, 0) \<and>
   mode (sample_box ''o'') = Overlay \<and>
   list_all (\<lambda>opn. \<not> is_rectangle opn)
     (drawTextBox exact_ops (\<lambda>f. sample_font) (sample_box ''o'') 792)"
proof -
  let ?W = "\<lambda>f :: StandardFonts. sample_font"
  let ?r = "(sample_box ''r'')\<lparr>mode := Replace\<rparr>"
  have first: "hd (drawTextBox exact_ops ?W b 792) =
      DrawRectangle (box_x b) (js_sub exact_ops (js_sub exact_ops 792 (box_y b)) (box_height b))
        (box_width b) (box_height b)
        (spec_color exact_ops
           (case backgroundColor b of
              None \<Rightarrow> ''#FFFFFF''
            | Some c \<Rightarrow> if c = [] then ''#FFFFFF'' else c)) \<and>
      list_all (\<lambda>opn. \<not> is_rectangle opn) (tl (drawTextBox exact_ops ?W b 792))"
    if "mode b = Replace" for b
  proof -
    from drawTextBox_replace_rectangle_first [of b exact_ops ?W 792] that obtain rest where
      r: "drawTextBox exact_ops ?W b 792 =
          DrawRectangle (box_x b)
            (js_sub exact_ops (js_sub exact_ops 792 (box_y b)) (box_height b))
            (box_width b) (box_height b)
            (spec_color exact_ops
               (case backgroundColor b of
                  None \<Rightarrow> ''#FFFFFF''
                | Some c \<Rightarrow> if c = [] then ''#FFFFFF'' else c))
          # rest"
      and t: "list_all (\<lambda>opn. \<not> is_rectangle opn) rest"
      by blast
    show ?thesis unfolding r using t by simp
  qed
  have mo: "mode (sample_box ''o'') = Overlay" by (simp add: sample_box_def)
  from drawTextBox_replace_rectangle_first [of "sample_box ''o''" exact_ops ?W 792] mo
  have o: "list_all (\<lambda>opn. \<not> is_rectangle opn) (drawTextBox exact_ops ?W (sample_box ''o'') 792)"
    by blast
  have white: "hd (drawTextBox exact_ops ?W ?r 792) = DrawRectangle 72 670 200 50 (1, 1, 1)"
    and texts: "list_all (\<lambda>opn. \<not> is_rectangle opn) (tl (drawTextBox exact_ops ?W ?r 792))"
    using first [of ?r]
    by (simp_all add: sample_box_def exact_ops_def spec_channel_def spec_hex_digit_def)
  have red: "hd (drawTextBox exact_ops ?W (?r\<lparr>backgroundColor := Some ''#FF0000''\<rparr>) 792)
      = DrawRectangle 72 670 200 50 (1, 0, 0)"
    using first [of "?r\<lparr>backgroundColor := Some ''#FF0000''\<rparr>"]
    by (simp add: sample_box_def exact_ops_def spec_channel_def spec_hex_digit_def)
  have blue: "hd (drawTextBox exact_ops ?W (?r\<lparr>backgroundColor := Some ''3b82f6''\<rparr>) 792)
      = DrawRectangle 72 670 200 50 (59 / 255, 130 / 255, 246 / 255)"
    using first [of "?r\<lparr>backgroundColor := Some ''3b82f6''\<rparr>"]
    by (simp add: sample_box_def exact_ops_def spec_channel_def spec_hex_digit_def)
  have black: "hd (drawTextBox exact_ops ?W (?r\<lparr>backgroundColor := Some ''not-a-color''\<rparr>) 792)
      = DrawRectangle 72 670 200 50 (0, 0, 0)"
    using first [of "?r\<lparr>backgroundColor := Some ''not-a-color''\<rparr>"]
    by (simp add: sample_box_def exact_ops_def)
  show ?thesis using white texts red blue black mo o by simp
qed

section \<open>Word wrap\<close>

text \<open>The loop of \<open>wrapText\<close>, from any loop state, computes the greedy line breaking.\<close>

lemma wrap_loop_greedy:
  "wrap_finish (foldl (wrap_step maxWidth font fs) (ls, cur) ws)
     = ls @ greedy_lines maxWidth font fs cur ws"
proof (induction ws arbitrary: ls cur)
  case Nil
  show ?case by (simp add: wrap_finish_def)
next
  case (Cons w ws)
  show ?case
  proof (cases "cur = []")
    case True
    then have "wrap_step maxWidth font fs (ls, cur) w = (ls, w)"
      by (simp add: wrap_step_def)
    then show ?thesis using Cons.IH [of ls w] True by simp
  next
    case False
    show ?thesis
    proof (cases "font (cur @ '' '' @ w) fs \<le> maxWidth")
      case True
      then have "wrap_step maxWidth font fs (ls, cur) w = (ls, cur @ '' '' @ w)"
        using False by (simp add: wrap_step_def Let_def)
      then show ?thesis using Cons.IH [of ls "cur @ '' '' @ w"] True False by simp
    next
      case wide: False
      then have "wrap_step maxWidth font fs (ls, cur) w = (ls @ [cur], w)"
        using False by (simp add: wrap_step_def Let_def)
      then show ?thesis using Cons.IH [of "ls @ [cur]" w] wide False by simp
    qed
  qed
qed

lemma wrapText_refines_greedy:
  "wrapText text' maxWidth font fs = greedy_wrap text' maxWidth font fs"
  by (simp add: wrapText_def greedy_wrap_def wrap_loop_greedy)

text \<open>Facts about splitting on single spaces.\<close>

lemma split_space_not_Nil: "split_space str \<noteq> []"
  by (induction str) (simp_all split: list.splits)

lemma split_space_append_space:
  "split_space (a @ CHR '' '' # b) = split_space a @ split_space b"
proof (induction a)
  case Nil
  show ?case by simp
next
  case (Cons c a)
  obtain w ws where "split_space a = w # ws"
    using split_space_not_Nil [of a] by (cases "split_space a") auto
  then show ?case using Cons.IH by simp
qed

lemma split_space_words_no_space: "w \<in> set (split_space str) \<Longrightarrow> no_space w"
proof (induction str arbitrary: w)
  case Nil
  then show ?case by (simp add: no_space_def)
next
  case (Cons c str)
  obtain v vs where v: "split_space str = v # vs"
    using split_space_not_Nil [of str] by (cases "split_space str") auto
  have hv: "no_space v" and hvs: "\<And>u. u \<in> set vs \<Longrightarrow> no_space u"
    using Cons.IH v by simp_all
  show ?case
  proof (cases "c = CHR '' ''")
    case True
    with Cons.prems have "w = [] \<or> w \<in> set (split_space str)" by simp
    then show ?thesis using Cons.IH by (auto simp: no_space_def)
  next
    case False
    with Cons.prems v have "w = c # v \<or> w \<in> set vs" by simp
    then show ?thesis using hv hvs False by (auto simp: no_space_def)
  qed
qed

lemma split_space_single: "no_space w \<Longrightarrow> split_space w = [w]"
  by (induction w) (auto simp: no_space_def)

lemma split_space_head_prefix: "\<exists>c. str = hd (split_space str) @ c"
proof (induction str)
  case Nil
  show ?case by simp
next
  case (Cons ch str)
  obtain v vs where v: "split_space str = v # vs"
    using split_space_not_Nil [of str] by (cases "split_space str") auto
  from Cons.IH v obtain c where "str = v @ c" by auto
  then show ?case using v by (cases "ch = CHR '' ''") auto
qed

lemma split_space_word_inside:
  "w \<in> set (split_space str) \<Longrightarrow> \<exists>a c. str = a @ w @ c"
proof (induction str)
  case Nil
  then show ?case by simp
next
  case (Cons ch str)
  obtain v vs where v: "split_space str = v # vs"
    using split_space_not_Nil [of str] by (cases "split_space str") auto
  from split_space_head_prefix [of str] v obtain c0 where c0: "str = v @ c0" by auto
  have later: "\<exists>a c. ch # str = a @ w @ c" if "w \<in> set (split_space str)"
  proof -
    from Cons.IH [OF that] obtain a c where "str = a @ w @ c" by blast
    then have "ch # str = (ch # a) @ w @ c" by simp
    then show ?thesis by blast
  qed
  show ?case
  proof (cases "ch = CHR '' ''")
    case True
    with Cons.prems have "w = [] \<or> w \<in> set (split_space str)" by simp
    then show ?thesis
    proof
      assume "w = []"
      then have "ch # str = [] @ w @ (ch # str)" by simp
      then show ?thesis by blast
    next
      assume "w \<in> set (split_space str)"
      then show ?thesis by (rule later)
    qed
  next
    case False
    with Cons.prems v have "w = ch # v \<or> w \<in> set vs" by simp
    then show ?thesis
    proof
      assume "w = ch # v"
      then have "ch # str = [] @ w @ c0" using c0 by simp
      then show ?thesis by blast
    next
      assume "w \<in> set vs"
      then have "w \<in> set (split_space str)" using v by simp
      then show ?thesis by (rule later)
    qed
  qed
qed


text \<open>The loop keeps the non-empty words, in order: no word is split or lost.\<close>

lemma line_words_append: "line_words (a @ b) = line_words a @ line_words b"
  by (simp add: line_words_def)

lemma line_words_empty_line: "line_words [[]] = []"
  by (simp add: line_words_def)

lemma line_words_joined: "line_words [a @ '' '' @ b] = line_words [a] @ line_words [b]"
  using split_space_append_space [of a b] by (simp add: line_words_def)

lemma line_words_Cons: "line_words (l # ls) = line_words [l] @ line_words ls"
  using line_words_append [of "[l]" ls] by simp

lemma wrap_step_words:
  "line_words (fst (wrap_step maxWidth font fs (ls, cur) w))
     @ line_words [snd (wrap_step maxWidth font fs (ls, cur) w)]
   = line_words ls @ line_words [cur] @ line_words [w]"
proof (cases "cur = []")
  case True
  then have "wrap_step maxWidth font fs (ls, cur) w = (ls, w)"
    by (simp add: wrap_step_def)
  then show ?thesis using True by (simp add: line_words_empty_line)
next
  case False
  show ?thesis
  proof (cases "font (cur @ '' '' @ w) fs > maxWidth")
    case True
    then have "wrap_step maxWidth font fs (ls, cur) w = (ls @ [cur], w)"
      using False by (simp add: wrap_step_def Let_def)
    then show ?thesis by (simp add: line_words_append)
  next
    case fits: False
    then have "wrap_step maxWidth font fs (ls, cur) w = (ls, cur @ '' '' @ w)"
      using False by (simp add: wrap_step_def Let_def)
    then show ?thesis by (simp only: fst_conv snd_conv line_words_joined)
  qed
qed

lemma wrap_loop_words:
  "line_words (fst (foldl (wrap_step maxWidth font fs) (ls, cur) ws))
     @ line_words [snd (foldl (wrap_step maxWidth font fs) (ls, cur) ws)]
   = line_words ls @ line_words [cur] @ line_words ws"
proof (induction ws arbitrary: ls cur)
  case Nil
  show ?case by (simp add: line_words_def)
next
  case (Cons w ws)
  obtain ls' cur' where st: "wrap_step maxWidth font fs (ls, cur) w = (ls', cur')"
    by (cases "wrap_step maxWidth font fs (ls, cur) w") auto
  from wrap_step_words [of maxWidth font fs ls cur w] st
  have step: "line_words ls' @ line_words [cur']
                = line_words ls @ line_words [cur] @ line_words [w]"
    by simp
  have "line_words (fst (foldl (wrap_step maxWidth font fs) (ls, cur) (w # ws)))
          @ line_words [snd (foldl (wrap_step maxWidth font fs) (ls, cur) (w # ws))]
        = line_words ls' @ line_words [cur'] @ line_words ws"
    using Cons.IH [of ls' cur'] st by simp
  also have "\<dots> = (line_words ls @ line_words [cur] @ line_words [w]) @ line_words ws"
    using step by simp
  also have "\<dots> = line_words ls @ line_words [cur] @ line_words (w # ws)"
    using line_words_Cons [of w ws] by simp
  finally show ?case .
qed

lemma wrap_finish_words:
  "line_words (wrap_finish (ls, cur)) = line_words ls @ line_words [cur]"
  by (simp add: wrap_finish_def line_words_append line_words_empty_line)

lemma line_words_of_words:
  "\<forall>w \<in> set ws. no_space w \<Longrightarrow> line_words ws = filter (\<lambda>v. v \<noteq> []) ws"
proof (induction ws)
  case Nil
  show ?case by (simp add: line_words_def)
next
  case (Cons w ws)
  then have "split_space w = [w]" by (simp add: split_space_single)
  then have "line_words [w] = filter (\<lambda>v. v \<noteq> []) [w]" by (simp add: line_words_def)
  then show ?case using Cons line_words_Cons [of w ws] by simp
qed

lemma wrapText_keeps_words:
  "line_words (wrapText text' maxWidth font fs) = line_words [text']"
proof -
  obtain ls cur where
    st: "foldl (wrap_step maxWidth font fs) ([], []) (split_space text') = (ls, cur)"
    by (cases "foldl (wrap_step maxWidth font fs) ([], []) (split_space text')") auto
  have ns: "\<forall>w \<in> set (split_space text'). no_space w"
    using split_space_words_no_space by blast
  have empty: "line_words [] = []" by (simp add: line_words_def)
  from wrap_loop_words [of maxWidth font fs "[]" "[]" "split_space text'"] st
  have "line_words ls @ line_words [cur] = line_words (split_space text')"
    by (simp add: empty line_words_empty_line)
  also have "\<dots> = filter (\<lambda>v. v \<noteq> []) (split_space text')"
    using ns by (rule line_words_of_words)
  also have "\<dots> = line_words [text']" by (simp add: line_words_def)
  finally show ?thesis by (simp only: wrapText_def st wrap_finish_words)
qed

text \<open>Every line either fits or is a single word.\<close>

lemma wrap_step_fits:
  assumes w: "no_space w"
    and ls: "list_all (line_ok maxWidth font fs) ls"
    and cur: "line_ok maxWidth font fs cur"
  shows "list_all (line_ok maxWidth font fs) (fst (wrap_step maxWidth font fs (ls, cur) w)) \<and>
         line_ok maxWidth font fs (snd (wrap_step maxWidth font fs (ls, cur) w))"
proof (cases "cur = []")
  case True
  then have "wrap_step maxWidth font fs (ls, cur) w = (ls, w)"
    by (simp add: wrap_step_def)
  then show ?thesis using ls w by (simp add: line_ok_def)
next
  case False
  show ?thesis
  proof (cases "font (cur @ '' '' @ w) fs > maxWidth")
    case True
    then have "wrap_step maxWidth font fs (ls, cur) w = (ls @ [cur], w)"
      using False by (simp add: wrap_step_def Let_def)
    then show ?thesis using ls cur w by (simp add: line_ok_def)
  next
    case fits: False
    then have "wrap_step maxWidth font fs (ls, cur) w = (ls, cur @ '' '' @ w)"
      using False by (simp add: wrap_step_def Let_def)
    then show ?thesis using ls fits by (simp add: line_ok_def)
  qed
qed

lemma wrap_loop_fits:
  "list_all no_space ws \<Longrightarrow> list_all (line_ok maxWidth font fs) ls \<Longrightarrow>
   line_ok maxWidth font fs cur \<Longrightarrow>
   list_all (line_ok maxWidth font fs)
     (wrap_finish (foldl (wrap_step maxWidth font fs) (ls, cur) ws))"
proof (induction ws arbitrary: ls cur)
  case Nil
  then show ?case by (simp add: wrap_finish_def)
next
  case (Cons w ws)
  obtain ls' cur' where st: "wrap_step maxWidth font fs (ls, cur) w = (ls', cur')"
    by (cases "wrap_step maxWidth font fs (ls, cur) w") auto
  have w: "no_space w" and ws: "list_all no_space ws" using Cons.prems(1) by simp_all
  from wrap_step_fits [OF w Cons.prems(2) Cons.prems(3)] st
  have a: "list_all (line_ok maxWidth font fs) ls'"
    and b: "line_ok maxWidth font fs cur'"
    by simp_all
  show ?case using Cons.IH [OF ws a b] st by simp
qed

lemma wrapText_lines_fit:
  "list_all (line_ok maxWidth font fs) (wrapText text' maxWidth font fs)"
proof -
  have ns: "list_all no_space (split_space text')"
    using split_space_words_no_space by (simp add: list_all_iff)
  have e: "list_all (line_ok maxWidth font fs) []" by simp
  have c: "line_ok maxWidth font fs []" by (simp add: line_ok_def no_space_def)
  show ?thesis unfolding wrapText_def by (rule wrap_loop_fits [OF ns e c])
qed

text \<open>
  Under a width measurement that never shrinks when text is added, a non-empty word wider
  than \<open>maxWidth\<close> is a line of its own.
\<close>

lemma wide_word_alone:
  assumes mono: "monotone_width font fs"
    and w: "word \<in> set (split_space text')"
    and ne: "word \<noteq> []"
    and wide: "maxWidth < font word fs"
  shows "word \<in> set (wrapText text' maxWidth font fs) \<and>
         (\<forall>l \<in> set (wrapText text' maxWidth font fs). word \<in> set (split_space l) \<longrightarrow> l = word)"
proof -
  let ?lines = "wrapText text' maxWidth font fs"
  have alone: "l = word" if l: "l \<in> set ?lines" and wl: "word \<in> set (split_space l)" for l
  proof -
    from wrapText_lines_fit [of maxWidth font fs text'] l
    have "line_ok maxWidth font fs l" by (simp add: list_all_iff)
    then have "font l fs \<le> maxWidth \<or> no_space l" by (simp add: line_ok_def)
    then show ?thesis
    proof
      assume fits: "font l fs \<le> maxWidth"
      from split_space_word_inside [OF wl] obtain a c where "l = a @ word @ c" by blast
      with mono have "font word fs \<le> font l fs" by (simp add: monotone_width_def)
      with fits wide show ?thesis by simp
    next
      assume "no_space l"
      then have "split_space l = [l]" by (rule split_space_single)
      with wl show ?thesis by simp
    qed
  qed
  have "word \<in> set (line_words [text'])" using w ne by (simp add: line_words_def)
  then have "word \<in> set (line_words ?lines)" by (simp only: wrapText_keeps_words)
  then obtain l where l: "l \<in> set ?lines" and wl: "word \<in> set (split_space l)"
    by (auto simp: line_words_def)
  from alone [OF l wl] l have "word \<in> set ?lines" by simp
  with alone show ?thesis by blast
qed

lemma wrapText_single_word:
  assumes "wa \<noteq> []" and "no_space wa"
  shows "wrapText wa maxWidth font fs = [wa]"
  using assms
  by (simp add: wrapText_def split_space_single wrap_step_def wrap_finish_def)

lemma split_three_words:
  assumes "no_space wa" and "no_space wb" and "no_space wc"
  shows "split_space (wa @ '' '' @ wb @ '' '' @ wc) = [wa, wb, wc]"
proof -
  have "split_space (wb @ CHR '' '' # wc) = [wb, wc]"
    using assms by (simp only: split_space_append_space split_space_single) simp
  then have "split_space (wa @ CHR '' '' # (wb @ CHR '' '' # wc)) = [wa, wb, wc]"
    using assms(1) by (simp only: split_space_append_space [of wa] split_space_single) simp
  then show ?thesis by simp
qed

lemma wrapText_three_words:
  assumes "wa \<noteq> []" and "wc \<noteq> []"
    and ns: "no_space wa" "no_space wb" "no_space wc"
    and two: "font (wa @ '' '' @ wb) fs \<le> maxWidth"
    and three: "maxWidth < font (wa @ '' '' @ wb @ '' '' @ wc) fs"
  shows "wrapText (wa @ '' '' @ wb @ '' '' @ wc) maxWidth font fs = [wa @ '' '' @ wb, wc]"
proof -
  have s1: "wrap_step maxWidth font fs ([], []) wa = ([], wa)"
    by (simp add: wrap_step_def)
  have s2: "wrap_step maxWidth font fs ([], wa) wb = ([], wa @ '' '' @ wb)"
    using assms(1) two by (simp add: wrap_step_def Let_def)
  have s3: "wrap_step maxWidth font fs ([], wa @ '' '' @ wb) wc = ([wa @ '' '' @ wb], wc)"
    using assms(1) three by (simp add: wrap_step_def Let_def)
  have "foldl (wrap_step maxWidth font fs) ([], []) [wa, wb, wc] = ([wa @ '' '' @ wb], wc)"
    by (simp only: foldl.simps s1 s2 s3)
  then show ?thesis
    using assms(2) by (simp only: wrapText_def split_three_words [OF ns] wrap_finish_def) simp
qed

lemma sample_font_monotone: "monotone_width sample_font fs"
  by (simp add: monotone_width_def sample_font_def)

text \<open>
  Claim C6 as stated (for every font, a single word wider than \<open>maxWidth\<close> is emitted alone on
  its own line) fails: the code joins a word onto the current line whenever the joined line
  measures at most \<open>maxWidth\<close>, whatever the word alone measures. Under a measurement in
  which \<open>bb\<close> alone measures 150 and every other text 10, the text \<open>a bb\<close> with
  \<open>maxWidth = 100\<close> is one line, and the wide word \<open>bb\<close> is not a line of its own.
\<close>

theorem wrapText_wide_word_counterexample:
  "''bb'' \<in> set (split_space ''a bb'') \<and>
   100 < odd_font ''bb'' 12 \<and>
   wrapText ''a bb'' 100 odd_font 12 = [''a bb''] \<and>
   ''bb'' \<notin> set (wrapText ''a bb'' 100 odd_font 12)"
  by (simp add: wrapText_def wrap_step_def wrap_finish_def odd_font_def)

text \<open>
  Claim C6, as amended. For every text, maximal width, width measurement and font size:
  (1) \<open>wrapText\<close> returns the lines of the greedy algorithm of the specification, in which
  the words between single spaces join the current line while the line, a space and the next
  word together measure at most \<open>maxWidth\<close>, and otherwise the current line is flushed and a
  new line starts with the word; (2) the non-empty words of the returned lines are the
  non-empty words of the text, in the same order, so no word is split or lost; (3) every
  returned line measures at most \<open>maxWidth\<close> or is a single word; (4) when the width
  measurement never shrinks as text is added (the condition that the amendment adds), a
  non-empty word wider than \<open>maxWidth\<close> is emitted, and every line that contains it is the
  word alone; (5) a text that is one word yields exactly that one line, whatever it measures
  (so a word measuring 150 with \<open>maxWidth = 100\<close>); (6) of three words, when the first two
  joined by a space fit (\<open>85 \<le> 100\<close>) and the three joined do not (\<open>130 > 100\<close>), the first
  two share a line and the third starts a new one.
\<close>

theorem wrapText_greedy_word_wrap:
  "wrapText text' maxWidth font fs = greedy_wrap text' maxWidth font fs \<and>
   line_words (wrapText text' maxWidth font fs) = line_words [text'] \<and>
   list_all (line_ok maxWidth font fs) (wrapText text' maxWidth font fs) \<and>
   (monotone_width font fs \<and> word \<in> set (split_space text') \<and> word \<noteq> [] \<and>
    maxWidth < font word fs \<longrightarrow>
      word \<in> set (wrapText text' maxWidth font fs) \<and>
      (\<forall>l \<in> set (wrapText text' maxWidth font fs).
         word \<in> set (split_space l) \<longrightarrow> l = word)) \<and>
   (wa \<noteq> [] \<and> no_space wa \<longrightarrow> wrapText wa maxWidth font fs = [wa]) \<and>
   (wa \<noteq> [] \<and> wc \<noteq> [] \<and> no_space wa \<and> no_space wb \<and> no_space wc \<and>
    font (wa @ '' '' @ wb) fs \<le> maxWidth \<and>
    maxWidth < font (wa @ '' '' @ wb @ '' '' @ wc) fs \<longrightarrow>
      wrapText (wa @ '' '' @ wb @ '' '' @ wc) maxWidth font fs = [wa @ '' '' @ wb, wc])"
proof (intro conjI impI)
  show "wrapText text' maxWidth font fs = greedy_wrap text' maxWidth font fs"
    by (rule wrapText_refines_greedy)
  show "line_words (wrapText text' maxWidth font fs) = line_words [text']"
    by (rule wrapText_keeps_words)
  show "list_all (line_ok maxWidth font fs) (wrapText text' maxWidth font fs)"
    by (rule wrapText_lines_fit)
next
  assume a: "monotone_width font fs \<and> word \<in> set (split_space text') \<and> word \<noteq> [] \<and>
    maxWidth < font word fs"
  then have m: "monotone_width font fs" and w: "word \<in> set (split_space text')"
    and ne: "word \<noteq> []" and wide: "maxWidth < font word fs" by simp_all
  note r = wide_word_alone [OF m w ne wide]
  from r show "word \<in> set (wrapText text' maxWidth font fs)" by (rule conjunct1)
  from r show "\<forall>l \<in> set (wrapText text' maxWidth font fs).
         word \<in> set (split_space l) \<longrightarrow> l = word" by (rule conjunct2)
next
  assume "wa \<noteq> [] \<and> no_space wa"
  then show "wrapText wa maxWidth font fs = [wa]" by (simp add: wrapText_single_word)
next
  assume "wa \<noteq> [] \<and> wc \<noteq> [] \<and> no_space wa \<and> no_space wb \<and> no_space wc \<and>
    font (wa @ '' '' @ wb) fs \<le> maxWidth \<and>
    maxWidth < font (wa @ '' '' @ wb @ '' '' @ wc) fs"
  then have h: "wa \<noteq> []" "wc \<noteq> []" "no_space wa" "no_space wb" "no_space wc"
    "font (wa @ '' '' @ wb) fs \<le> maxWidth"
    "maxWidth < font (wa @ '' '' @ wb @ '' '' @ wc) fs" by simp_all
  show "wrapText (wa @ '' '' @ wb @ '' '' @ wc) maxWidth font fs = [wa @ '' '' @ wb, wc]"
    using h wrapText_three_words [where wa = wa and wb = wb and wc = wc and font = font
        and fs = fs and maxWidth = maxWidth]
    by simp
qed


theorem wrapText_greedy_word_wrap_witness:
  "sample_font ''abcdefghijklmno'' 12 = 150 \<and>
   wrapText ''abcdefghijklmno'' 100 sample_font 12 = [''abcdefghijklmno''] \<and>
   sample_font ''abcd'' 12 = 40 \<and> sample_font ''efgh'' 12 = 40 \<and>
   sample_font ''ijkl'' 12 = 40 \<and> sample_font '' '' 12 = 5 \<and>
   sample_font ''abcd efgh'' 12 = 85 \<and>
   sample_font ''abcd efgh ijkl'' 12 = 130 \<and>
   wrapText ''abcd efgh ijkl'' 100 sample_font 12 = [''abcd efgh'', ''ijkl''] \<and>
   greedy_wrap ''abcd efgh ijkl'' 100 sample_font 12 = [''abcd efgh'', ''ijkl''] \<and>
   monotone_width sample_font 12 \<and>
   ''abcdefghijklmno'' \<in> set (split_space ''aa abcdefghijklmno bb'') \<and>
   ''abcdefghijklmno'' \<in> set (wrapText ''aa abcdefghijklmno bb'' 100 sample_font 12) \<and>
   line_words (wrapText ''aa abcdefghijklmno bb'' 100 sample_font 12)
     = [''aa'', ''abcdefghijklmno'', ''bb'']"
proof -
  have widths: "sample_font ''abcdefghijklmno'' 12 = 150" "sample_font ''abcd'' 12 = 40"
    "sample_font ''efgh'' 12 = 40" "sample_font ''ijkl'' 12 = 40" "sample_font '' '' 12 = 5"
    "sample_font ''abcd efgh'' 12 = 85" "sample_font ''abcd efgh ijkl'' 12 = 130"
    by (simp_all add: sample_font_def)
  have mono: "monotone_width sample_font 12" by (rule sample_font_monotone)
  have member: "''abcdefghijklmno'' \<in> set (split_space ''aa abcdefghijklmno bb'')" by simp
  have words: "line_words [''aa abcdefghijklmno bb''] = [''aa'', ''abcdefghijklmno'', ''bb'']"
    by (simp add: line_words_def)
  have wide: "(100::real) < sample_font ''abcdefghijklmno'' 12"
    by (simp add: sample_font_def)
  have ns: "no_space ''abcdefghijklmno''" "no_space ''abcd''" "no_space ''efgh''"
    "no_space ''ijkl''"
    by (simp_all add: no_space_def)
  have two: "sample_font (''abcd'' @ '' '' @ ''efgh'') 12 \<le> 100"
    and three: "100 < sample_font (''abcd'' @ '' '' @ ''efgh'' @ '' '' @ ''ijkl'') 12"
    by (simp_all add: sample_font_def)
  note t1 = wrapText_greedy_word_wrap [where text' = "''aa abcdefghijklmno bb''"
      and maxWidth = 100 and font = sample_font and fs = 12
      and word = "''abcdefghijklmno''" and wa = "''abcdefghijklmno''"
      and wb = "''efgh''" and wc = "''ijkl''"]
  note t2 = wrapText_greedy_word_wrap [where text' = "''abcd efgh ijkl''"
      and maxWidth = 100 and font = sample_font and fs = 12
      and word = "''abcd''" and wa = "''abcd''"
      and wb = "''efgh''" and wc = "''ijkl''"]
  have nonempty: "''abcdefghijklmno'' \<noteq> []" "''abcd'' \<noteq> []" "''ijkl'' \<noteq> []"
    by simp_all
  from t1 nonempty(1) ns(1)
  have single: "wrapText ''abcdefghijklmno'' 100 sample_font 12 = [''abcdefghijklmno'']"
    by blast
  from t1 mono member nonempty(1) wide
  have inside: "''abcdefghijklmno'' \<in> set (wrapText ''aa abcdefghijklmno bb'' 100 sample_font 12)"
    by blast
  from t1
  have "line_words (wrapText ''aa abcdefghijklmno bb'' 100 sample_font 12)
     = line_words [''aa abcdefghijklmno bb'']"
    by blast
  then have kept: "line_words (wrapText ''aa abcdefghijklmno bb'' 100 sample_font 12)
     = [''aa'', ''abcdefghijklmno'', ''bb'']"
    by (simp only: words)
  from t2 nonempty(2) nonempty(3) ns(2) ns(3) ns(4) two three
  have wrapped: "wrapText (''abcd'' @ '' '' @ ''efgh'' @ '' '' @ ''ijkl'') 100 sample_font 12
      = [''abcd'' @ '' '' @ ''efgh'', ''ijkl'']"
    by blast
  then have wrapped': "wrapText ''abcd efgh ijkl'' 100 sample_font 12 = [''abcd efgh'', ''ijkl'']"
    by simp
  from t2
  have "wrapText ''abcd efgh ijkl'' 100 sample_font 12
          = greedy_wrap ''abcd efgh ijkl'' 100 sample_font 12"
    by blast
  with wrapped'
  have greedy: "greedy_wrap ''abcd efgh ijkl'' 100 sample_font 12 = [''abcd efgh'', ''ijkl'']"
    by simp
  show ?thesis
    using widths single wrapped' greedy mono member inside kept by simp
qed

end
